theory Spec2Isabelle
  imports Complex_Main
begin

section \<open>JavaScript strings and numbers\<close>

text \<open>
  The component \<^verbatim>\<open>MusicInspirationRepo\<close> of \<^verbatim>\<open>music-inspiration-repo.tsx\<close> is embedded
  function by function. Strings are \<^typ>\<open>string\<close> restricted to ASCII. A JavaScript
  \<^verbatim>\<open>number\<close> is modelled at its integer values by \<^typ>\<open>int\<close>; the arithmetic used here
  (\<^verbatim>\<open>*\<close>, \<^verbatim>\<open>+\<close>, \<^verbatim>\<open>Math.floor(x / 60)\<close>, \<^verbatim>\<open>%\<close>) is exact on integers below \<open>2^53\<close>, and
  \<^verbatim>\<open>toString\<close> prints plain decimal digits below \<open>10^21\<close>.
\<close>

definition isDigit :: "char \<Rightarrow> bool" where
  \<comment> \<open>the regular-expression class \<^verbatim>\<open>\d\<close>, and the digits \<^verbatim>\<open>parseInt\<close> reads in radix 10\<close>
  "isDigit c = (48 \<le> (of_char c :: nat) \<and> (of_char c :: nat) \<le> 57)"

definition isWhiteSpace :: "char \<Rightarrow> bool" where
  \<comment> \<open>the ASCII members of \<^verbatim>\<open>StrWhiteSpaceChar\<close>: TAB, LF, VT, FF, CR, SP\<close>
  "isWhiteSpace c = ((of_char c :: nat) \<in> {9, 10, 11, 12, 13, 32})"

definition digitValue :: "char \<Rightarrow> nat option" where
  \<comment> \<open>the value of a character as a digit: \<^verbatim>\<open>0-9\<close>, \<^verbatim>\<open>a-z\<close> and \<^verbatim>\<open>A-Z\<close> from ten on\<close>
  "digitValue c =
     (let k = (of_char c :: nat) in
      if 48 \<le> k \<and> k \<le> 57 then Some (k - 48)
      else if 97 \<le> k \<and> k \<le> 122 then Some (k - 87)
      else if 65 \<le> k \<and> k \<le> 90 then Some (k - 55)
      else None)"

definition isRadixDigit :: "nat \<Rightarrow> char \<Rightarrow> bool" where
  "isRadixDigit radix c = (case digitValue c of None \<Rightarrow> False | Some v \<Rightarrow> v < radix)"

definition radixValue :: "nat \<Rightarrow> string \<Rightarrow> nat" where
  \<comment> \<open>the mathematical value of a digit string in the given radix\<close>
  "radixValue radix ds = foldl (\<lambda>a c. a * radix + (case digitValue c of None \<Rightarrow> 0 | Some v \<Rightarrow> v)) 0 ds"

definition parseInt :: "string \<Rightarrow> int option" where
  \<comment> \<open>\<^verbatim>\<open>Number.parseInt(s)\<close> without a radix argument; \<open>None\<close> is \<^verbatim>\<open>NaN\<close>. Leading white
      space is skipped, one sign is read, a prefix \<^verbatim>\<open>0x\<close> or \<^verbatim>\<open>0X\<close> selects radix 16, and the
      longest run of digits is the value; what follows is ignored.\<close>
  "parseInt s =
     (let s1 = dropWhile isWhiteSpace s;
          sign = (case s1 of c # _ \<Rightarrow> if c = CHR ''-'' then (- 1 :: int) else 1 | [] \<Rightarrow> 1);
          s2 = (case s1 of c # cs \<Rightarrow> if c = CHR ''-'' \<or> c = CHR ''+'' then cs else s1 | [] \<Rightarrow> s1);
          hex = (case s2 of z # x # _ \<Rightarrow> z = CHR ''0'' \<and> (x = CHR ''x'' \<or> x = CHR ''X'') | _ \<Rightarrow> False);
          radix = (if hex then 16 else 10);
          s3 = (if hex then drop 2 s2 else s2);
          ds = takeWhile (isRadixDigit radix) s3
      in if ds = [] then None else Some (sign * int (radixValue radix ds)))"

definition orZero :: "int option \<Rightarrow> int" where
  \<comment> \<open>\<^verbatim>\<open>x || 0\<close> on a number: \<^verbatim>\<open>NaN\<close> and \<^verbatim>\<open>0\<close> are falsy\<close>
  "orZero x = (case x of None \<Rightarrow> 0 | Some n \<Rightarrow> n)"

fun split :: "char \<Rightarrow> string \<Rightarrow> string list" where
  \<comment> \<open>\<^verbatim>\<open>s.split(sep)\<close> for a one-character separator; the result is never empty\<close>
  "split sep [] = [[]]"
| "split sep (c # cs) =
     (if c = sep then [] # split sep cs
      else (case split sep cs of p # ps \<Rightarrow> (c # p) # ps | [] \<Rightarrow> [[c]]))"

function toString_nat :: "nat \<Rightarrow> string" where
  "toString_nat n =
     (if n < 10 then [''0123456789'' ! n]
      else toString_nat (n div 10) @ [''0123456789'' ! (n mod 10)])"
  by pat_completeness auto
termination
  by (relation "measure (\<lambda>n. n)") auto

declare toString_nat.simps [simp del]

definition toString :: "int \<Rightarrow> string" where
  \<comment> \<open>\<^verbatim>\<open>n.toString()\<close> and the conversion inside a template literal, for an integer\<close>
  "toString n = (if n < 0 then CHR ''-'' # toString_nat (nat (- n)) else toString_nat (nat n))"

definition padStart :: "nat \<Rightarrow> char \<Rightarrow> string \<Rightarrow> string" where
  \<comment> \<open>\<^verbatim>\<open>s.padStart(n, c)\<close> for a one-character filler\<close>
  "padStart n c s = replicate (n - length s) c @ s"

definition js_rem :: "int \<Rightarrow> int \<Rightarrow> int" where
  \<comment> \<open>\<^verbatim>\<open>a % b\<close> on integers: the remainder takes the sign of the dividend\<close>
  "js_rem a b = (if a < 0 then - ((- a) mod \<bar>b\<bar>) else a mod \<bar>b\<bar>)"

section \<open>Time codec\<close>

definition timeToSeconds :: "string \<Rightarrow> int" where
  "timeToSeconds timeStr =
     (let parts = split CHR '':'' timeStr in
      if length parts = 2 then
        (let minutes = orZero (parseInt (parts ! 0));
             seconds = orZero (parseInt (parts ! 1))
         in minutes * 60 + seconds)
      else 0)"

definition secondsToTime :: "int \<Rightarrow> string" where
  "secondsToTime seconds =
     (let mins = seconds div 60;
          secs = js_rem seconds 60
      in toString mins @ '':'' @ padStart 2 CHR ''0'' (toString secs))"

definition validateTimeFormat :: "string \<Rightarrow> bool" where
  \<comment> \<open>the regular expression \<^verbatim>\<open>/^\d{1,2}:\d{2}$/\<close>\<close>
  "validateTimeFormat timeStr =
     (case timeStr of
        [m, c, s1, s2] \<Rightarrow> isDigit m \<and> c = CHR '':'' \<and> isDigit s1 \<and> isDigit s2
      | [m1, m2, c, s1, s2] \<Rightarrow> isDigit m1 \<and> isDigit m2 \<and> c = CHR '':'' \<and> isDigit s1 \<and> isDigit s2
      | _ \<Rightarrow> False)"


section \<open>Snippets\<close>

text \<open>
  The interface \<^verbatim>\<open>MusicSnippet\<close> is erased at run time, and \<^verbatim>\<open>updateSnippet\<close> stores its
  string argument under whichever key it is given, so a field is modelled as the
  JavaScript value it holds.
\<close>

datatype jsval = JStr string | JNum int | JNull

fun truthy :: "jsval \<Rightarrow> bool" where
  "truthy (JStr s) = (s \<noteq> [])"
| "truthy (JNum n) = (n \<noteq> 0)"
| "truthy JNull = False"

record MusicSnippet =
  snippet_id :: jsval
  song_name :: jsval
  audio_type :: jsval
  audio_url :: jsval
  spotify_url :: jsval
  soundcloud_url :: jsval
  start_time :: jsval
  snippet_notes :: jsval
  position :: jsval

datatype key =
  K_id | K_song_name | K_audio_type | K_audio_url | K_spotify_url | K_soundcloud_url
  | K_start_time | K_notes | K_position

fun get_field :: "key \<Rightarrow> MusicSnippet \<Rightarrow> jsval" where
  \<comment> \<open>\<^verbatim>\<open>snippet[field]\<close>\<close>
  "get_field K_id s = snippet_id s"
| "get_field K_song_name s = song_name s"
| "get_field K_audio_type s = audio_type s"
| "get_field K_audio_url s = audio_url s"
| "get_field K_spotify_url s = spotify_url s"
| "get_field K_soundcloud_url s = soundcloud_url s"
| "get_field K_start_time s = start_time s"
| "get_field K_notes s = snippet_notes s"
| "get_field K_position s = position s"

fun set_field :: "key \<Rightarrow> jsval \<Rightarrow> MusicSnippet \<Rightarrow> MusicSnippet" where
  \<comment> \<open>\<^verbatim>\<open>{ ...snippet, [field]: value }\<close>\<close>
  "set_field K_id v s = s\<lparr>snippet_id := v\<rparr>"
| "set_field K_song_name v s = s\<lparr>song_name := v\<rparr>"
| "set_field K_audio_type v s = s\<lparr>audio_type := v\<rparr>"
| "set_field K_audio_url v s = s\<lparr>audio_url := v\<rparr>"
| "set_field K_spotify_url v s = s\<lparr>spotify_url := v\<rparr>"
| "set_field K_soundcloud_url v s = s\<lparr>soundcloud_url := v\<rparr>"
| "set_field K_start_time v s = s\<lparr>start_time := v\<rparr>"
| "set_field K_notes v s = s\<lparr>snippet_notes := v\<rparr>"
| "set_field K_position v s = s\<lparr>position := v\<rparr>"

section \<open>Component state\<close>

text \<open>
  The state gathers what the component reads and writes: its React state variables, the
  \<^verbatim>\<open>audioRefs\<close> object, whether \<^verbatim>\<open>getSupabase()\<close> returned a client, the rows of the remote
  table \<^verbatim>\<open>music_snippets\<close> (without the \<^verbatim>\<open>updated_at\<close> stamp) and the value stored under the
  local storage key \<^verbatim>\<open>musicSnippets\<close>, kept as the collection that was serialised.
  Of an \<^verbatim>\<open>HTMLAudioElement\<close> only \<^verbatim>\<open>paused\<close> and \<^verbatim>\<open>currentTime\<close> (in whole seconds) are kept.

  A handler is a closure of one render: it reads \<^verbatim>\<open>snippets\<close>, \<^verbatim>\<open>currentlyPlaying\<close>,
  \<^verbatim>\<open>useLocalStorage\<close> and \<^verbatim>\<open>supabase\<close> as that render saw them, also after an \<^verbatim>\<open>await\<close>.
  Each handler therefore takes two states: \<open>r\<close>, the state of the render that created it,
  and \<open>st\<close>, the state its writes apply to. When the handler runs to its end before
  anything else happens, \<open>st\<close> is \<open>r\<close>. The result of a request to the remote store is an
  argument of the handler.
\<close>

record audio =
  paused :: bool
  currentTime :: int

datatype outcome = Resolved | Failed

record state =
  snippets :: "MusicSnippet list"
  currentlyPlaying :: "string option"
  loading :: bool
  saving :: bool
  useLocalStorage :: bool
  audioRefs :: "string \<rightharpoonup> audio"
  supabase :: bool
  remote :: "MusicSnippet list"
  localStorage :: "MusicSnippet list option"

definition upsert :: "MusicSnippet \<Rightarrow> MusicSnippet list \<Rightarrow> MusicSnippet list" where
  \<comment> \<open>insert or replace by the primary key \<^verbatim>\<open>id\<close>\<close>
  "upsert row rows =
     (if snippet_id row \<in> set (map snippet_id rows)
      then map (\<lambda>x. if snippet_id x = snippet_id row then row else x) rows
      else rows @ [row])"

definition persistEffect :: "state \<Rightarrow> state" where
  \<comment> \<open>the effect with dependencies \<^verbatim>\<open>[snippets, useLocalStorage]\<close>: React runs it after a render
      in which one of the two changed\<close>
  "persistEffect st =
     (if useLocalStorage st \<and> length (snippets st) > 0
      then st\<lparr>localStorage := Some (snippets st)\<rparr>
      else st)"

definition saveSnippet :: "state \<Rightarrow> outcome \<Rightarrow> MusicSnippet \<Rightarrow> state \<Rightarrow> state" where
  "saveSnippet r res snippet st =
     (if \<not> supabase r then
        (let updatedSnippets = map (\<lambda>s. if snippet_id s = snippet_id snippet then snippet else s) (snippets r)
         in st\<lparr>localStorage := Some updatedSnippets\<rparr>)
      else
        (case res of
           Resolved \<Rightarrow> st\<lparr>remote := upsert snippet (remote st), saving := False\<rparr>
         | Failed \<Rightarrow>
             (let updatedSnippets = map (\<lambda>s. if snippet_id s = snippet_id snippet then snippet else s) (snippets r)
              in st\<lparr>localStorage := Some updatedSnippets, useLocalStorage := True, saving := False\<rparr>)))"

definition newSnippet :: "state \<Rightarrow> nat \<Rightarrow> MusicSnippet" where
  \<comment> \<open>the object literal of \<^verbatim>\<open>addNewSnippet\<close>; \<open>now\<close> is \<^verbatim>\<open>Date.now()\<close>\<close>
  "newSnippet r now =
     \<lparr>snippet_id = JStr (toString (int now)), song_name = JStr [], audio_type = JStr ''file'',
      audio_url = JNull, spotify_url = JStr [], soundcloud_url = JStr [],
      start_time = JStr ''0:00'', snippet_notes = JStr [], position = JNum (int (length (snippets r)))\<rparr>"

definition addNewSnippet :: "state \<Rightarrow> nat \<Rightarrow> outcome \<Rightarrow> state \<Rightarrow> state" where
  "addNewSnippet r now res st =
     saveSnippet r res (newSnippet r now) (st\<lparr>snippets := snippets r @ [newSnippet r now]\<rparr>)"

definition deleteSnippet :: "state \<Rightarrow> string \<Rightarrow> outcome \<Rightarrow> state \<Rightarrow> state" where
  "deleteSnippet r i res st =
     (let st1 = (if supabase r then
                   (case res of
                      Resolved \<Rightarrow> st\<lparr>remote := filter (\<lambda>x. snippet_id x \<noteq> JStr i) (remote st)\<rparr>
                    | Failed \<Rightarrow> st\<lparr>useLocalStorage := True\<rparr>)
                 else st);
          updatedSnippets = filter (\<lambda>snippet. snippet_id snippet \<noteq> JStr i) (snippets r);
          st2 = st1\<lparr>snippets := updatedSnippets\<rparr>;
          st3 = (if \<not> supabase r \<or> useLocalStorage r
                 then st2\<lparr>localStorage := Some updatedSnippets\<rparr> else st2);
          st4 = (case audioRefs st3 i of
                   Some a \<Rightarrow> \<comment> \<open>the element is paused, then removed from \<^verbatim>\<open>audioRefs\<close>\<close>
                     st3\<lparr>audioRefs := (audioRefs st3)(i := None)\<rparr>
                 | None \<Rightarrow> st3)
      in if currentlyPlaying r = Some i then st4\<lparr>currentlyPlaying := None\<rparr> else st4)"

definition updateSnippet :: "state \<Rightarrow> string \<Rightarrow> key \<Rightarrow> string \<Rightarrow> outcome \<Rightarrow> state \<Rightarrow> state" where
  "updateSnippet r i field v res st =
     (let updatedSnippets =
            map (\<lambda>snippet. if snippet_id snippet = JStr i then set_field field (JStr v) snippet else snippet)
              (snippets r);
          st1 = st\<lparr>snippets := updatedSnippets\<rparr>
      in case find (\<lambda>s. snippet_id s = JStr i) updatedSnippets of
           Some snippet \<Rightarrow> saveSnippet r res snippet st1
         | None \<Rightarrow> st1)"

definition getCurrentPlaybackTime :: "state \<Rightarrow> string \<Rightarrow> outcome \<Rightarrow> state \<Rightarrow> state" where
  "getCurrentPlaybackTime r i res st =
     (case audioRefs st i of
        Some a \<Rightarrow> updateSnippet r i K_start_time (secondsToTime (currentTime a)) res st
      | None \<Rightarrow> st)"


section \<open>File upload\<close>

definition isWordChar :: "char \<Rightarrow> bool" where
  \<comment> \<open>the regular-expression class \<^verbatim>\<open>\w\<close>\<close>
  "isWordChar c =
     (let k = (of_char c :: nat)
      in (48 \<le> k \<and> k \<le> 57) \<or> (65 \<le> k \<and> k \<le> 90) \<or> (97 \<le> k \<and> k \<le> 122) \<or> k = 95)"

definition toUpperCase :: "char \<Rightarrow> char" where
  \<comment> \<open>\<^verbatim>\<open>l.toUpperCase()\<close> for one ASCII character\<close>
  "toUpperCase c =
     (let k = (of_char c :: nat) in if 97 \<le> k \<and> k \<le> 122 then char_of (k - 32) else c)"

fun capitalizeWords :: "bool \<Rightarrow> string \<Rightarrow> string" where
  \<comment> \<open>\<^verbatim>\<open>s.replace(/\b\w/g, (l) => l.toUpperCase())\<close>; the flag says that the character before
      is a word character\<close>
  "capitalizeWords inWord [] = []"
| "capitalizeWords inWord (c # cs) =
     (if isWordChar c \<and> \<not> inWord then toUpperCase c else c) # capitalizeWords (isWordChar c) cs"

definition cleanFileName :: "string \<Rightarrow> string" where
  "cleanFileName fileName =
     (let ext = rev (takeWhile (\<lambda>c. c \<noteq> CHR ''.'') (rev fileName));
          nameWithoutExt =
            (if CHR ''.'' \<in> set fileName \<and> ext \<noteq> [] \<and> CHR ''/'' \<notin> set ext
             then take (length fileName - length ext - 1) fileName
             else fileName);
          cleaned = map (\<lambda>c. if c = CHR ''_'' \<or> c = CHR ''-'' \<or> c = CHR ''.'' then CHR '' '' else c)
                      nameWithoutExt
      in capitalizeWords False cleaned)"

definition handleFileUpload ::
  "state \<Rightarrow> string \<Rightarrow> string \<Rightarrow> string \<Rightarrow> outcome \<Rightarrow> state \<Rightarrow> state" where
  \<comment> \<open>\<open>audioUrl\<close> is \<^verbatim>\<open>URL.createObjectURL(file)\<close> and \<open>fileName\<close> is \<^verbatim>\<open>file.name\<close>\<close>
  "handleFileUpload r i audioUrl fileName res st =
     (let cleanedName = cleanFileName fileName;
          updatedSnippets =
            map (\<lambda>snippet. if snippet_id snippet = JStr i
                   then snippet\<lparr>audio_url := JStr audioUrl,
                                song_name := (if truthy (song_name snippet) then song_name snippet
                                              else JStr cleanedName)\<rparr>
                   else snippet) (snippets r);
          st1 = st\<lparr>snippets := updatedSnippets\<rparr>
      in case find (\<lambda>s. snippet_id s = JStr i) updatedSnippets of
           Some snippet \<Rightarrow> saveSnippet r res snippet st1
         | None \<Rightarrow> st1)"

section \<open>Metadata enrichment\<close>

fun startsWith :: "string \<Rightarrow> string \<Rightarrow> bool" where
  "startsWith s [] = True"
| "startsWith [] (p # ps) = False"
| "startsWith (c # cs) (p # ps) = (c = p \<and> startsWith cs ps)"

fun includes_str :: "string \<Rightarrow> string \<Rightarrow> bool" where
  \<comment> \<open>\<^verbatim>\<open>s.includes(sub)\<close>\<close>
  "includes_str [] sub = (sub = [])"
| "includes_str (c # cs) sub = (startsWith (c # cs) sub \<or> includes_str cs sub)"

text \<open>
  \<^verbatim>\<open>fetchSpotifyTrackInfo\<close> and \<^verbatim>\<open>fetchSoundCloudTrackInfo\<close> resolve to a title or to
  \<^verbatim>\<open>null\<close>; that result is the argument \<open>trackInfo\<close>. The code after the \<^verbatim>\<open>await\<close> of the
  lookup is a function of its own, since the state it writes to is the one current when
  the lookup has settled, while \<^verbatim>\<open>snippets\<close> is still the array of the render \<open>r\<close>.
\<close>

definition applyTrackInfo :: "state \<Rightarrow> string \<Rightarrow> string option \<Rightarrow> outcome \<Rightarrow> state \<Rightarrow> state" where
  \<comment> \<open>the body of \<^verbatim>\<open>if (trackInfo) { ... }\<close>, the same in both URL handlers\<close>
  "applyTrackInfo r i trackInfo res st =
     (case trackInfo of
        None \<Rightarrow> st
      | Some title \<Rightarrow>
          if title = [] then st
          else
            (let finalSnippets =
                   map (\<lambda>s. if snippet_id s = JStr i
                             then s\<lparr>song_name := (if truthy (song_name s) then song_name s else JStr title)\<rparr>
                             else s) (snippets r);
                 st1 = st\<lparr>snippets := finalSnippets\<rparr>
             in case find (\<lambda>s. snippet_id s = JStr i) finalSnippets of
                  Some updatedSnippet \<Rightarrow> saveSnippet r res updatedSnippet st1
                | None \<Rightarrow> st1))"

definition setSpotifyUrl :: "state \<Rightarrow> string \<Rightarrow> string \<Rightarrow> outcome \<Rightarrow> state \<Rightarrow> state" where
  \<comment> \<open>\<^verbatim>\<open>handleSpotifyUrlChange\<close> up to the end of its first \<^verbatim>\<open>saveSnippet\<close>\<close>
  "setSpotifyUrl r i url res st =
     (let updatedSnippets =
            map (\<lambda>snippet. if snippet_id snippet = JStr i then snippet\<lparr>spotify_url := JStr url\<rparr> else snippet)
              (snippets r);
          st1 = st\<lparr>snippets := updatedSnippets\<rparr>
      in case find (\<lambda>s. snippet_id s = JStr i) updatedSnippets of
           Some snippet \<Rightarrow> saveSnippet r res snippet st1
         | None \<Rightarrow> st1)"

definition handleSpotifyUrlChange ::
  "state \<Rightarrow> string \<Rightarrow> string \<Rightarrow> outcome \<Rightarrow> string option \<Rightarrow> outcome \<Rightarrow> state \<Rightarrow> state" where
  \<comment> \<open>the whole handler, when nothing else happens while it waits\<close>
  "handleSpotifyUrlChange r i url res trackInfo res' st =
     (let st1 = setSpotifyUrl r i url res st
      in if url \<noteq> [] \<and> includes_str url ''spotify.com/track/''
         then applyTrackInfo r i trackInfo res' st1
         else st1)"

definition setSoundCloudUrl :: "state \<Rightarrow> string \<Rightarrow> string \<Rightarrow> outcome \<Rightarrow> state \<Rightarrow> state" where
  \<comment> \<open>\<^verbatim>\<open>handleSoundCloudUrlChange\<close> up to the end of its first \<^verbatim>\<open>saveSnippet\<close>\<close>
  "setSoundCloudUrl r i url res st =
     (let updatedSnippets =
            map (\<lambda>snippet. if snippet_id snippet = JStr i then snippet\<lparr>soundcloud_url := JStr url\<rparr> else snippet)
              (snippets r);
          st1 = st\<lparr>snippets := updatedSnippets\<rparr>
      in case find (\<lambda>s. snippet_id s = JStr i) updatedSnippets of
           Some snippet \<Rightarrow> saveSnippet r res snippet st1
         | None \<Rightarrow> st1)"

definition handleSoundCloudUrlChange ::
  "state \<Rightarrow> string \<Rightarrow> string \<Rightarrow> outcome \<Rightarrow> string option \<Rightarrow> outcome \<Rightarrow> state \<Rightarrow> state" where
  "handleSoundCloudUrlChange r i url res trackInfo res' st =
     (let st1 = setSoundCloudUrl r i url res st
      in if url \<noteq> [] \<and> includes_str url ''soundcloud.com/''
         then applyTrackInfo r i trackInfo res' st1
         else st1)"

section \<open>Playback\<close>

definition pauseAll :: "(string \<rightharpoonup> audio) \<Rightarrow> (string \<rightharpoonup> audio)" where
  \<comment> \<open>\<^verbatim>\<open>Object.values(audioRefs.current).forEach((a) => a.pause())\<close>\<close>
  "pauseAll refs = (\<lambda>k. map_option (\<lambda>a. a\<lparr>paused := True\<rparr>) (refs k))"

definition togglePlayPause :: "state \<Rightarrow> string \<Rightarrow> state \<Rightarrow> state" where
  \<comment> \<open>a \<^verbatim>\<open>start_time\<close> that is truthy and no string makes \<^verbatim>\<open>timeStr.split\<close> throw: the
      handler stops after pausing every element\<close>
  "togglePlayPause r i st =
     (case (audioRefs st i, find (\<lambda>s. snippet_id s = JStr i) (snippets r)) of
        (Some a, Some snippet) \<Rightarrow>
          if currentlyPlaying r = Some i then
            st\<lparr>audioRefs := (audioRefs st)(i \<mapsto> a\<lparr>paused := True\<rparr>), currentlyPlaying := None\<rparr>
          else
            (let refs = pauseAll (audioRefs st)
             in if audio_type snippet = JStr ''file'' \<and> truthy (start_time snippet)
                   \<and> start_time snippet \<noteq> JStr ''0:00''
                then
                  (case start_time snippet of
                     JStr t \<Rightarrow>
                       st\<lparr>audioRefs := refs(i \<mapsto> a\<lparr>currentTime := timeToSeconds t, paused := False\<rparr>),
                          currentlyPlaying := Some i\<rparr>
                   | _ \<Rightarrow> st\<lparr>audioRefs := refs\<rparr>)
                else
                  st\<lparr>audioRefs := refs(i \<mapsto> a\<lparr>paused := False\<rparr>), currentlyPlaying := Some i\<rparr>)
      | _ \<Rightarrow> st)"

definition handleAudioEnded :: "state \<Rightarrow> string \<Rightarrow> state \<Rightarrow> state" where
  "handleAudioEnded r i st = st\<lparr>currentlyPlaying := None\<rparr>"

text \<open>
  The \<^verbatim>\<open>audio\<close> element of a row registers itself in \<^verbatim>\<open>audioRefs\<close> under the id of the row
  when the row is rendered. The object has one entry for each id, so two rows of one id
  share the entry.
\<close>

fun propertyKey :: "jsval \<Rightarrow> string" where
  \<comment> \<open>the property name that \<^verbatim>\<open>audioRefs.current[snippet.id]\<close> uses\<close>
  "propertyKey (JStr s) = s"
| "propertyKey (JNum n) = toString n"
| "propertyKey JNull = ''null''"

definition attachAudio :: "(string \<rightharpoonup> audio) \<Rightarrow> MusicSnippet \<Rightarrow> (string \<rightharpoonup> audio)" where
  \<comment> \<open>the \<^verbatim>\<open>ref\<close> callback of the \<^verbatim>\<open>audio\<close> element of one row, which is rendered in the file tab
      when \<^verbatim>\<open>audio_url\<close> is truthy; a new element is paused at position zero\<close>
  "attachAudio refs snippet =
     (if audio_type snippet = JStr ''file'' \<and> truthy (audio_url snippet) then
        (case refs (propertyKey (snippet_id snippet)) of
           Some a \<Rightarrow> refs
         | None \<Rightarrow> refs(propertyKey (snippet_id snippet) \<mapsto> \<lparr>paused = True, currentTime = 0\<rparr>))
      else refs)"

definition renderAudio :: "state \<Rightarrow> state" where
  \<comment> \<open>a render of the table: the \<^verbatim>\<open>ref\<close> callbacks of the rows, in order\<close>
  "renderAudio st = st\<lparr>audioRefs := foldl attachAudio (audioRefs st) (snippets st)\<rparr>"

text \<open>
  The events of playback. A click on the play or pause button of a row calls
  \<^verbatim>\<open>togglePlayPause\<close>, a click on its delete button calls \<^verbatim>\<open>deleteSnippet\<close>, and an audio
  element that reaches its end is paused by the browser, which then calls
  \<^verbatim>\<open>handleAudioEnded\<close>. Each handler is the closure of the current render.
\<close>

datatype event = Toggle string | Delete string outcome | Ended string

fun step :: "event \<Rightarrow> state \<Rightarrow> state" where
  "step (Toggle i) st = togglePlayPause st i st"
| "step (Delete i res) st = deleteSnippet st i res st"
| "step (Ended i) st =
     handleAudioEnded st i
       (st\<lparr>audioRefs := (\<lambda>k. if k = i then map_option (\<lambda>a. a\<lparr>paused := True\<rparr>) (audioRefs st k)
                                else audioRefs st k)\<rparr>)"

definition run :: "event list \<Rightarrow> state \<Rightarrow> state" where
  "run es st = foldl (\<lambda>s e. step e s) st es"

definition reportedPlaying :: "state \<Rightarrow> MusicSnippet list" where
  \<comment> \<open>the rows for which \<^verbatim>\<open>currentlyPlaying === snippet.id\<close>\<close>
  "reportedPlaying st =
     filter (\<lambda>snippet. case currentlyPlaying st of Some i \<Rightarrow> JStr i = snippet_id snippet | None \<Rightarrow> False)
       (snippets st)"

definition audioPlaying :: "state \<Rightarrow> string \<Rightarrow> bool" where
  "audioPlaying st i = (case audioRefs st i of Some a \<Rightarrow> \<not> paused a | None \<Rightarrow> False)"

section \<open>Normalisation of a time string\<close>

definition normalizeTime :: "string \<Rightarrow> string" where
  \<comment> \<open>the zero-padding normalisation of the minutes part: \<^verbatim>\<open>MM:SS\<close> with a leading zero
      becomes \<^verbatim>\<open>M:SS\<close>\<close>
  "normalizeTime s =
     (case s of
        [z, m, c, s1, s2] \<Rightarrow> if z = CHR ''0'' then [m, c, s1, s2] else s
      | _ \<Rightarrow> s)"


section \<open>Example states\<close>

text \<open>
  The component after its mount with a configured remote store and an empty table.
\<close>

definition remoteStart :: state where
  "remoteStart =
     \<lparr>snippets = [], currentlyPlaying = None, loading = False, saving = False,
      useLocalStorage = False, audioRefs = Map.empty, supabase = True, remote = [],
      localStorage = None\<rparr>"

text \<open>
  The same component once the upsert of a first added snippet has failed and the effect
  has run for the change of \<^verbatim>\<open>useLocalStorage\<close>.
\<close>

definition afterFailure :: state where
  "afterFailure = persistEffect (addNewSnippet remoteStart 17 Failed remoteStart)"

text \<open>
  Three rows: a Spotify track and two uploaded files with their audio elements.
\<close>

definition threeRows :: state where
  "threeRows =
     \<lparr>snippets =
        [\<lparr>snippet_id = JStr ''1'', song_name = JStr ''Riff Idea'', audio_type = JStr ''spotify'',
          audio_url = JNull, spotify_url = JStr ''https://open.spotify.com/track/abc'',
          soundcloud_url = JStr [], start_time = JStr ''0:00'', snippet_notes = JStr ''chords'',
          position = JNum 0\<rparr>,
         \<lparr>snippet_id = JStr ''2'', song_name = JStr ''Demo'', audio_type = JStr ''file'',
          audio_url = JStr ''blob:demo'', spotify_url = JStr [], soundcloud_url = JStr [],
          start_time = JStr ''0:00'', snippet_notes = JStr [], position = JNum 1\<rparr>,
         \<lparr>snippet_id = JStr ''3'', song_name = JStr ''Take two'', audio_type = JStr ''file'',
          audio_url = JStr ''blob:take'', spotify_url = JStr [], soundcloud_url = JStr [],
          start_time = JStr ''1:30'', snippet_notes = JStr [], position = JNum 2\<rparr>],
      currentlyPlaying = None, loading = False, saving = False, useLocalStorage = False,
      audioRefs = [''2'' \<mapsto> \<lparr>paused = True, currentTime = 0\<rparr>,
                   ''3'' \<mapsto> \<lparr>paused = True, currentTime = 0\<rparr>],
      supabase = True, remote = [], localStorage = None\<rparr>"

text \<open>
  A row with an uploaded file that has been playing for one hundred minutes.
\<close>

definition capturedState :: state where
  "capturedState =
     \<lparr>snippets = [\<lparr>snippet_id = JStr ''1'', song_name = JStr ''Long mix'', audio_type = JStr ''file'',
                   audio_url = JStr ''blob:mix'', spotify_url = JStr [], soundcloud_url = JStr [],
                   start_time = JStr ''0:00'', snippet_notes = JStr [], position = JNum 0\<rparr>],
      currentlyPlaying = Some ''1'', loading = False, saving = False, useLocalStorage = False,
      audioRefs = [''1'' \<mapsto> \<lparr>paused = False, currentTime = 6000\<rparr>],
      supabase = True, remote = [], localStorage = None\<rparr>"

text \<open>
  One Spotify row without a name, the state after a track URL has been pasted into it, and
  the state after the user has then typed a name, each handler being the closure of the
  render before it.
\<close>

definition untitledRow :: state where
  "untitledRow =
     \<lparr>snippets =
        [\<lparr>snippet_id = JStr ''17'', song_name = JStr [], audio_type = JStr ''spotify'',
          audio_url = JNull, spotify_url = JStr [], soundcloud_url = JStr [],
          start_time = JStr ''0:00'', snippet_notes = JStr [], position = JNum 0\<rparr>],
      currentlyPlaying = None, loading = False, saving = False, useLocalStorage = False,
      audioRefs = Map.empty, supabase = True, remote = [], localStorage = None\<rparr>"

definition urlPasted :: state where
  "urlPasted = setSpotifyUrl untitledRow ''17'' ''https://open.spotify.com/track/abc'' Resolved untitledRow"

definition nameTyped :: state where
  "nameTyped = updateSnippet urlPasted ''17'' K_song_name ''My name'' Resolved urlPasted"

text \<open>
  From the empty collection, two snippets added while \<^verbatim>\<open>Date.now()\<close> returns the same
  value, each by the handler of the current render; then a file uploaded to the id they
  share, and the render that mounts the audio element.
\<close>

definition sameClockTwice :: state where
  "sameClockTwice =
     addNewSnippet (addNewSnippet remoteStart 17 Resolved remoteStart) 17 Resolved
       (addNewSnippet remoteStart 17 Resolved remoteStart)"

definition twinsUploaded :: state where
  "twinsUploaded =
     renderAudio (handleFileUpload sameClockTwice ''17'' ''blob:take'' ''take_one.mp3'' Resolved sameClockTwice)"

section \<open>Digits and decimal numerals\<close>

lemma nat_48_57: "48 \<le> (k::nat) \<Longrightarrow> k \<le> 57 \<Longrightarrow> k = 48 \<or> k = 49 \<or> k = 50 \<or> k = 51 \<or> k = 52 \<or> k = 53 \<or> k = 54 \<or> k = 55 \<or> k = 56 \<or> k = 57"
  by arith

lemma of_char_eqD: "(of_char c :: nat) = of_char d \<Longrightarrow> c = d"
  by simp

lemma isDigit_cases:
  assumes "isDigit c"
  shows "c \<in> set ''0123456789''"
proof -
  from assms have "48 \<le> (of_char c :: nat)" "(of_char c :: nat) \<le> 57" by (simp_all add: isDigit_def)
  then have "(of_char c :: nat) = 48 \<or> (of_char c :: nat) = 49 \<or> (of_char c :: nat) = 50 \<or> (of_char c :: nat) = 51 \<or> (of_char c :: nat) = 52 
     \<or> (of_char c :: nat) = 53 \<or> (of_char c :: nat) = 54 \<or> (of_char c :: nat) = 55 \<or> (of_char c :: nat) = 56 \<or> (of_char c :: nat) = 57"
    by (rule nat_48_57)
  then have "c = CHR ''0'' \<or> c = CHR ''1'' \<or> c = CHR ''2'' \<or> c = CHR ''3'' \<or> c = CHR ''4'' \<or> c = CHR ''5'' \<or> c = CHR ''6'' \<or> c = CHR ''7''
    \<or> c = CHR ''8'' \<or> c = CHR ''9''"
    by (elim disjE) (simp_all add: of_char_eqD)
  then show ?thesis by auto
qed

lemma digit_facts:
  assumes "c \<in> set ''0123456789''"
  shows "isDigit c" "\<not> isWhiteSpace c" "c \<noteq> CHR ''-''" "c \<noteq> CHR ''+''" "c \<noteq> CHR '':''"
     "c \<noteq> CHR ''x''" "c \<noteq> CHR ''X''" "isRadixDigit 10 c" 
     "\<exists>k<10. digitValue c = Some k \<and> ''0123456789'' ! k = c"
  using assms by (auto simp: isDigit_def isWhiteSpace_def isRadixDigit_def digitValue_def)

lemma nth_digit_facts: "k < 10 \<Longrightarrow> ''0123456789'' ! k \<in> set ''0123456789''"
  by (rule nth_mem) simp

lemma toString_nat_lt10: "n < 10 \<Longrightarrow> toString_nat n = [''0123456789'' ! n]"
  by (subst toString_nat.simps) simp

lemma toString_nat_lt100:
  "10 \<le> n \<Longrightarrow> n < 100 \<Longrightarrow> toString_nat n = [''0123456789'' ! (n div 10), ''0123456789'' ! (n mod 10)]"
  by (subst toString_nat.simps) (simp add: toString_nat_lt10)

lemma length_toString_nat_pos: "Suc 0 \<le> length (toString_nat n)"
  by (subst toString_nat.simps) simp

lemma length_toString_nat_ge100: "100 \<le> n \<Longrightarrow> 3 \<le> length (toString_nat n)"
proof -
  assume n: "100 \<le> n"
  then have "10 \<le> n div 10" by simp
  then have "2 \<le> length (toString_nat (n div 10))"
    using length_toString_nat_pos [of "n div 10 div 10"]
    by (subst toString_nat.simps) simp
  with n show ?thesis
    by (subst toString_nat.simps) simp
qed

lemma set_toString_nat: "set (toString_nat n) \<subseteq> set ''0123456789''"
proof (induction n rule: toString_nat.induct)
  case (1 n)
  have d: "''0123456789'' ! (n mod 10) \<in> set ''0123456789''"
    by (rule nth_digit_facts) simp
  show ?case
  proof (cases "n < 10")
    case True
    then show ?thesis using nth_digit_facts [of n] by (simp add: toString_nat_lt10)
  next
    case False
    with 1 have "set (toString_nat (n div 10)) \<subseteq> set ''0123456789''" by simp
    with False d show ?thesis by (subst toString_nat.simps) simp
  qed
qed

lemma length_toString_nat_iff: "(length (toString_nat n) = 1 \<or> length (toString_nat n) = 2) = (n < 100)"
proof (cases "n < 10")
  case True
  then show ?thesis by (simp add: toString_nat_lt10)
next
  case False
  show ?thesis
  proof (cases "n < 100")
    case True
    with False show ?thesis by (simp add: toString_nat_lt100)
  next
    case False
    then have "3 \<le> length (toString_nat n)" by (simp add: length_toString_nat_ge100)
    with False show ?thesis by simp
  qed
qed

lemma padStart_toString_nat:
  "r < 100 \<Longrightarrow> padStart 2 CHR ''0'' (toString_nat r) = [''0123456789'' ! (r div 10), ''0123456789'' ! (r mod 10)]"
  by (cases "r < 10") (simp_all add: padStart_def toString_nat_lt10 toString_nat_lt100)

lemma secondsToTime_int:
  "secondsToTime (int n) = toString_nat (n div 60) @ CHR '':'' # padStart 2 CHR ''0'' (toString_nat (n mod 60))"
proof -
  have "int n div 60 = int (n div 60)" by (simp add: zdiv_int)
  moreover have "js_rem (int n) 60 = int (n mod 60)" by (simp add: js_rem_def zmod_int)
  ultimately show ?thesis by (simp add: secondsToTime_def toString_def)
qed

lemma validateTimeFormat_append:
  assumes "set ms \<subseteq> set ''0123456789''" "d1 \<in> set ''0123456789''" "d2 \<in> set ''0123456789''"
  shows "validateTimeFormat (ms @ [CHR '':'', d1, d2]) = (length ms = 1 \<or> length ms = 2)"
proof -
  have ne: "\<And>c. c \<in> set ms \<Longrightarrow> isDigit c \<and> c \<noteq> CHR '':''"
    using assms(1) digit_facts(1,5) by blast
  have d: "isDigit d1" "isDigit d2" "d1 \<noteq> CHR '':''" "d2 \<noteq> CHR '':''"
    using assms(2,3) digit_facts(1,5) by blast+
  show ?thesis
  proof (cases ms)
    case Nil
    then show ?thesis by (simp add: validateTimeFormat_def d)
  next
    case (Cons a as)
    note A = this
    show ?thesis
    proof (cases as)
      case Nil
      with A ne d show ?thesis by (simp add: validateTimeFormat_def)
    next
      case (Cons b bs)
      note B = this
      show ?thesis
      proof (cases bs)
        case Nil
        with A B ne d show ?thesis by (simp add: validateTimeFormat_def)
      next
        case (Cons c cs)
        with A B ne d show ?thesis by (simp add: validateTimeFormat_def split: list.splits)
      qed
    qed
  qed
qed

lemma validateTimeFormat_secondsToTime_int:
  "validateTimeFormat (secondsToTime (int n)) = (n < 6000)"
proof -
  have r: "n mod 60 < 100" by (rule less_trans [of _ 60]) simp_all
  have d1: "''0123456789'' ! (n mod 60 div 10) \<in> set ''0123456789''"
    by (rule nth_digit_facts) (simp add: less_mult_imp_div_less)
  have d2: "''0123456789'' ! (n mod 60 mod 10) \<in> set ''0123456789''"
    by (rule nth_digit_facts) simp
  have "validateTimeFormat (secondsToTime (int n)) =
      (length (toString_nat (n div 60)) = 1 \<or> length (toString_nat (n div 60)) = 2)"
    unfolding secondsToTime_int padStart_toString_nat [OF r]
    using validateTimeFormat_append [OF set_toString_nat d1 d2, of "n div 60"] by simp
  also have "\<dots> = (n div 60 < 100)" by (rule length_toString_nat_iff)
  also have "\<dots> = (n < 6000)" by (simp add: div_less_iff_less_mult)
  finally show ?thesis .
qed

section \<open>Reading integers and splitting at the colon\<close>

lemma parseInt_digit1:
  assumes "a \<in> set ''0123456789''" "digitValue a = Some k"
  shows "parseInt [a] = Some (int k)"
  using assms digit_facts(2,3,4,8) [OF assms(1)]
  by (simp add: parseInt_def radixValue_def)

lemma parseInt_digit2:
  assumes "a \<in> set ''0123456789''" "b \<in> set ''0123456789''"
    and "digitValue a = Some j" "digitValue b = Some k"
  shows "parseInt [a, b] = Some (int (j * 10 + k))"
  using assms(3,4) digit_facts(2,3,4,8) [OF assms(1)] digit_facts(6,7,8) [OF assms(2)]
  by (simp add: parseInt_def radixValue_def)


lemma split_4:
  assumes "a \<noteq> CHR '':''" "b \<noteq> CHR '':''" "c \<noteq> CHR '':''"
  shows "split CHR '':'' [a, CHR '':'', b, c] = [[a], [b, c]]"
  using assms by simp

lemma split_5:
  assumes "a1 \<noteq> CHR '':''" "a2 \<noteq> CHR '':''" "b \<noteq> CHR '':''" "c \<noteq> CHR '':''"
  shows "split CHR '':'' [a1, a2, CHR '':'', b, c] = [[a1, a2], [b, c]]"
  using assms by simp

lemma validateTimeFormat_cases:
  assumes "validateTimeFormat s"
  obtains a b c where "s = [a, CHR '':'', b, c]" "isDigit a" "isDigit b" "isDigit c"
  | a1 a2 b c where "s = [a1, a2, CHR '':'', b, c]" "isDigit a1" "isDigit a2" "isDigit b" "isDigit c"
  using assms unfolding validateTimeFormat_def
  by (auto split: list.splits)

lemma secondsToTime_parts:
  assumes "r < 60"
  shows "secondsToTime (int (m * 60 + r)) =
         toString_nat m @ [CHR '':'', ''0123456789'' ! (r div 10), ''0123456789'' ! (r mod 10)]"
proof -
  from assms have d: "(m * 60 + r) div 60 = m" and m: "(m * 60 + r) mod 60 = r" and r: "r < 100"
    by simp_all
  show ?thesis
    unfolding secondsToTime_int d m padStart_toString_nat [OF r] by simp
qed

lemma digit_obtain:
  assumes "isDigit c"
  obtains k where "k < 10" "digitValue c = Some k" "''0123456789'' ! k = c" "c \<in> set ''0123456789''"
  using digit_facts(9) [OF isDigit_cases [OF assms]] isDigit_cases [OF assms] by blast

lemma digit_zero_iff: "k < 10 \<Longrightarrow> (''0123456789'' ! k = CHR ''0'') = (k = 0)"
proof -
  assume "k < 10"
  then have "k = 0 \<or> k = 1 \<or> k = 2 \<or> k = 3 \<or> k = 4 \<or> k = 5 \<or> k = 6 \<or> k = 7 \<or> k = 8 \<or> k = 9"
    by arith
  then show ?thesis by (elim disjE) simp_all
qed

lemma two_digits: "k < 10 \<Longrightarrow> (j * 10 + k) div 10 = j \<and> (j * 10 + k) mod 10 = (k::nat)"
  by simp

section \<open>Properties of the time codec\<close>



text \<open>
  Claim C10. The output of \<^const>\<open>secondsToTime\<close> is not always accepted by
  \<^const>\<open>validateTimeFormat\<close>: \<open>6000\<close> seconds print as \<^verbatim>\<open>100:00\<close>, which is rejected, and
  for non-negative seconds the output is accepted exactly below \<open>6000\<close>. A playback
  position of \<open>6000\<close> seconds captured by \<^const>\<open>getCurrentPlaybackTime\<close> is stored as the
  start time \<^verbatim>\<open>100:00\<close>.
\<close>

theorem secondsToTime_beyond_validator:
  "secondsToTime 6000 = ''100:00'' \<and> \<not> validateTimeFormat (secondsToTime 6000)
   \<and> (\<forall>n\<ge>0. validateTimeFormat (secondsToTime n) = (n < 6000))
   \<and> map start_time (snippets (getCurrentPlaybackTime capturedState ''1'' res capturedState))
       = [JStr ''100:00'']"
proof -
  have a: "secondsToTime 6000 = ''100:00''" by code_simp
  have b: "\<not> validateTimeFormat (secondsToTime 6000)" by code_simp
  have c: "\<forall>n\<ge>0. validateTimeFormat (secondsToTime n) = (n < 6000)"
  proof (intro allI impI)
    fix n :: int
    assume "0 \<le> n"
    then have "n = int (nat n)" by simp
    then have "validateTimeFormat (secondsToTime n) = (nat n < 6000)"
      using validateTimeFormat_secondsToTime_int [of "nat n"] by simp
    also have "\<dots> = (n < 6000)" using \<open>0 \<le> n\<close> by arith
    finally show "validateTimeFormat (secondsToTime n) = (n < 6000)" .
  qed
  have d: "map start_time (snippets (getCurrentPlaybackTime capturedState ''1'' res capturedState))
       = [JStr ''100:00'']"
    by (cases res) (simp_all add: getCurrentPlaybackTime_def capturedState_def updateSnippet_def
        saveSnippet_def Let_def a)
  from a b c d show ?thesis by blast
qed

theorem secondsToTime_beyond_validator_witness:
  "(0::int) \<le> 5999 \<and> validateTimeFormat (secondsToTime 5999)
   \<and> (0::int) \<le> 7200 \<and> \<not> validateTimeFormat (secondsToTime 7200)"
proof -
  have "\<forall>n\<ge>0. validateTimeFormat (secondsToTime n) = (n < 6000)"
    using secondsToTime_beyond_validator [of Resolved] by blast
  then have "validateTimeFormat (secondsToTime 5999) = ((5999::int) < 6000)"
    and "validateTimeFormat (secondsToTime 7200) = ((7200::int) < 6000)"
    by simp_all
  then show ?thesis by simp
qed

text \<open>
  Claim C2, as stated: for every string accepted by \<^const>\<open>validateTimeFormat\<close>, formatting
  the parsed value gives the string back up to the zero padding of the minutes. It fails
  at \<^verbatim>\<open>1:75\<close>, which the validator accepts and which comes back as \<^verbatim>\<open>2:15\<close>.
\<close>

theorem roundtrip_counterexample:
  "validateTimeFormat ''1:75'' \<and> secondsToTime (timeToSeconds ''1:75'') \<noteq> normalizeTime ''1:75''"
  by code_simp

text \<open>
  Claim C2, amended: for every string accepted by \<^const>\<open>validateTimeFormat\<close> whose seconds
  part is below sixty, \<^const>\<open>secondsToTime\<close> of \<^const>\<open>timeToSeconds\<close> of the string is the
  string with the padding zero of its minutes removed.
\<close>

theorem roundtrip_amended:
  assumes valid: "validateTimeFormat s"
    and secs: "orZero (parseInt (split CHR '':'' s ! 1)) < 60"
  shows "secondsToTime (timeToSeconds s) = normalizeTime s"
  using valid
proof (cases rule: validateTimeFormat_cases)
  case (1 a b c)
  from 1(2) obtain ka where a: "ka < 10" "digitValue a = Some ka" "''0123456789'' ! ka = a" "a \<in> set ''0123456789''"
    by (rule digit_obtain)
  from 1(3) obtain kb where b: "kb < 10" "digitValue b = Some kb" "''0123456789'' ! kb = b" "b \<in> set ''0123456789''"
    by (rule digit_obtain)
  from 1(4) obtain kc where c: "kc < 10" "digitValue c = Some kc" "''0123456789'' ! kc = c" "c \<in> set ''0123456789''"
    by (rule digit_obtain)
  have sp: "split CHR '':'' s = [[a], [b, c]]"
    unfolding 1(1) using digit_facts(5) [OF a(4)] digit_facts(5) [OF b(4)] digit_facts(5) [OF c(4)]
    by (rule split_4)
  have pm: "parseInt [a] = Some (int ka)" using a(4) a(2) by (rule parseInt_digit1)
  have ps: "parseInt [b, c] = Some (int (kb * 10 + kc))" using b(4) c(4) b(2) c(2) by (rule parseInt_digit2)
  from secs have r: "kb * 10 + kc < 60" by (simp add: sp ps orZero_def)
  have "timeToSeconds s = int (ka * 60 + (kb * 10 + kc))"
    by (simp add: timeToSeconds_def sp pm ps orZero_def)
  then have "secondsToTime (timeToSeconds s) = secondsToTime (int (ka * 60 + (kb * 10 + kc)))"
    by (rule arg_cong)
  also have "\<dots> = toString_nat ka @ [CHR '':'', b, c]"
    unfolding secondsToTime_parts [OF r] using two_digits [OF c(1), of kb] b(3) c(3) by simp
  also have "toString_nat ka = [a]" using a(1,3) by (simp add: toString_nat_lt10)
  finally show ?thesis by (simp add: 1(1) normalizeTime_def)
next
  case (2 a1 a2 b c)
  from 2(2) obtain k1 where a1: "k1 < 10" "digitValue a1 = Some k1" "''0123456789'' ! k1 = a1" "a1 \<in> set ''0123456789''"
    by (rule digit_obtain)
  from 2(3) obtain k2 where a2: "k2 < 10" "digitValue a2 = Some k2" "''0123456789'' ! k2 = a2" "a2 \<in> set ''0123456789''"
    by (rule digit_obtain)
  from 2(4) obtain kb where b: "kb < 10" "digitValue b = Some kb" "''0123456789'' ! kb = b" "b \<in> set ''0123456789''"
    by (rule digit_obtain)
  from 2(5) obtain kc where c: "kc < 10" "digitValue c = Some kc" "''0123456789'' ! kc = c" "c \<in> set ''0123456789''"
    by (rule digit_obtain)
  have sp: "split CHR '':'' s = [[a1, a2], [b, c]]"
    unfolding 2(1) using digit_facts(5) [OF a1(4)] digit_facts(5) [OF a2(4)] digit_facts(5) [OF b(4)] digit_facts(5) [OF c(4)]
    by (rule split_5)
  have pm: "parseInt [a1, a2] = Some (int (k1 * 10 + k2))" using a1(4) a2(4) a1(2) a2(2) by (rule parseInt_digit2)
  have ps: "parseInt [b, c] = Some (int (kb * 10 + kc))" using b(4) c(4) b(2) c(2) by (rule parseInt_digit2)
  from secs have r: "kb * 10 + kc < 60" by (simp add: sp ps orZero_def)
  have "timeToSeconds s = int ((k1 * 10 + k2) * 60 + (kb * 10 + kc))"
    by (simp add: timeToSeconds_def sp pm ps orZero_def)
  then have "secondsToTime (timeToSeconds s) = secondsToTime (int ((k1 * 10 + k2) * 60 + (kb * 10 + kc)))"
    by (rule arg_cong)
  also have "\<dots> = toString_nat (k1 * 10 + k2) @ [CHR '':'', b, c]"
    unfolding secondsToTime_parts [OF r] using two_digits [OF c(1), of kb] b(3) c(3) by simp
  finally have rt: "secondsToTime (timeToSeconds s) = toString_nat (k1 * 10 + k2) @ [CHR '':'', b, c]" .
  show ?thesis
  proof (cases "k1 = 0")
    case True
    with a1(3) have z: "a1 = CHR ''0''" by simp
    from True a2(1,3) have "toString_nat (k1 * 10 + k2) = [a2]" by (simp add: toString_nat_lt10)
    with rt z show ?thesis by (simp add: 2(1) normalizeTime_def)
  next
    case False
    with a1(1,3) have nz: "a1 \<noteq> CHR ''0''" using digit_zero_iff [of k1] by simp
    from False a1(1) a2(1) have "10 \<le> k1 * 10 + k2" "k1 * 10 + k2 < 100" by simp_all
    then have "toString_nat (k1 * 10 + k2) = [a1, a2]"
      using two_digits [OF a2(1), of k1] a1(3) a2(3) by (simp add: toString_nat_lt100)
    with rt nz show ?thesis by (simp add: 2(1) normalizeTime_def)
  qed
qed

theorem roundtrip_amended_witness:
  "validateTimeFormat ''01:30'' \<and> orZero (parseInt (split CHR '':'' ''01:30'' ! 1)) < 60
   \<and> secondsToTime (timeToSeconds ''01:30'') = ''1:30'' \<and> normalizeTime ''01:30'' = ''1:30''"
proof -
  have v: "validateTimeFormat ''01:30''" by code_simp
  have s: "orZero (parseInt (split CHR '':'' ''01:30'' ! 1)) < 60" by code_simp
  have n: "normalizeTime ''01:30'' = ''1:30''" by code_simp
  from roundtrip_amended [OF v s] n v s show ?thesis by simp
qed

section \<open>The in-memory collection\<close>

text \<open>
  What each handler leaves in \<^const>\<open>snippets\<close>. The claims of this section are about a
  handler whose render is current, so the two state arguments are the same.
\<close>

lemma snippets_saveSnippet: "snippets (saveSnippet r res snippet st) = snippets st"
  by (cases res) (simp_all add: saveSnippet_def Let_def)

lemma snippets_addNewSnippet:
  "snippets (addNewSnippet r now res st) = snippets r @ [newSnippet r now]"
  by (simp add: addNewSnippet_def snippets_saveSnippet)

lemma snippets_deleteSnippet:
  "snippets (deleteSnippet r i res st) = filter (\<lambda>snippet. snippet_id snippet \<noteq> JStr i) (snippets r)"
  by (cases res) (simp_all add: deleteSnippet_def Let_def split: option.split)

lemma snippets_updateSnippet:
  "snippets (updateSnippet r i field v res st) =
     map (\<lambda>snippet. if snippet_id snippet = JStr i then set_field field (JStr v) snippet else snippet)
       (snippets r)"
  by (simp add: updateSnippet_def Let_def snippets_saveSnippet split: option.split)

lemma get_set_field: "get_field g (set_field f v s) = (if g = f then v else get_field g s)"
  by (cases f; cases g) simp_all

text \<open>
  Claim C6. For every collection, \<^const>\<open>addNewSnippet\<close> appends exactly one record and
  changes no other: the new record has the length of the collection before the call as
  its position, the start time \<^verbatim>\<open>0:00\<close>, the kind \<^verbatim>\<open>file\<close> with no audio reference, and an
  empty name, empty URLs and empty notes.
\<close>

theorem addNewSnippet_appends:
  "snippets (addNewSnippet st now res st) = snippets st @ [newSnippet st now]
   \<and> position (newSnippet st now) = JNum (int (length (snippets st)))
   \<and> start_time (newSnippet st now) = JStr ''0:00''
   \<and> audio_type (newSnippet st now) = JStr ''file''
   \<and> audio_url (newSnippet st now) = JNull
   \<and> song_name (newSnippet st now) = JStr []
   \<and> spotify_url (newSnippet st now) = JStr []
   \<and> soundcloud_url (newSnippet st now) = JStr []
   \<and> snippet_notes (newSnippet st now) = JStr []"
  by (simp add: snippets_addNewSnippet) (simp add: newSnippet_def)

text \<open>
  Claim C5. For every collection, \<^const>\<open>addNewSnippet\<close> followed by \<^const>\<open>deleteSnippet\<close> with
  the id of the new snippet gives back the collection, provided that the id does not
  occur in the collection already.
\<close>

theorem add_then_delete:
  assumes "JStr (toString (int now)) \<notin> snippet_id ` set (snippets st)"
  shows "snippets (deleteSnippet (addNewSnippet st now res st) (toString (int now)) res'
            (addNewSnippet st now res st)) = snippets st"
proof -
  have "snippet_id (newSnippet st now) = JStr (toString (int now))"
    by (simp add: newSnippet_def)
  moreover from assms
  have "\<forall>x\<in>set (snippets st). snippet_id x \<noteq> JStr (toString (int now))"
    by (metis imageI)
  then have "filter (\<lambda>snippet. snippet_id snippet \<noteq> JStr (toString (int now))) (snippets st) = snippets st"
    by simp
  ultimately show ?thesis
    by (simp add: snippets_deleteSnippet snippets_addNewSnippet)
qed

theorem add_then_delete_witness:
  "JStr (toString (int 4)) \<notin> snippet_id ` set (snippets threeRows)
   \<and> length (snippets (addNewSnippet threeRows 4 Resolved threeRows)) = 4
   \<and> snippets (deleteSnippet (addNewSnippet threeRows 4 Resolved threeRows) (toString (int 4)) Failed
        (addNewSnippet threeRows 4 Resolved threeRows)) = snippets threeRows"
proof -
  have h: "JStr (toString (int 4)) \<notin> snippet_id ` set (snippets threeRows)"
    by code_simp
  have l: "length (snippets (addNewSnippet threeRows 4 Resolved threeRows)) = 4"
    by code_simp
  from add_then_delete [OF h, of Resolved Failed] h l show ?thesis by blast
qed

text \<open>
  Claim C4. For every collection, id, field and value, \<^const>\<open>updateSnippet\<close> keeps the length
  of the collection; on a snippet with the id it sets the field to the value and leaves every
  other field as it was; it leaves every snippet with another id as it was; and when no
  snippet has the id the collection is unchanged.
\<close>

theorem updateSnippet_frame:
  "length (snippets (updateSnippet st i field v res st)) = length (snippets st)
   \<and> (\<forall>k<length (snippets st).
        (snippet_id (snippets st ! k) = JStr i \<longrightarrow>
           get_field field (snippets (updateSnippet st i field v res st) ! k) = JStr v
           \<and> (\<forall>g. g \<noteq> field \<longrightarrow>
                get_field g (snippets (updateSnippet st i field v res st) ! k)
                  = get_field g (snippets st ! k)))
        \<and> (snippet_id (snippets st ! k) \<noteq> JStr i \<longrightarrow>
             snippets (updateSnippet st i field v res st) ! k = snippets st ! k))
   \<and> (JStr i \<notin> snippet_id ` set (snippets st) \<longrightarrow>
        snippets (updateSnippet st i field v res st) = snippets st)"
proof (intro conjI allI impI)
  show "length (snippets (updateSnippet st i field v res st)) = length (snippets st)"
    by (simp add: snippets_updateSnippet)
next
  fix k
  assume "k < length (snippets st)" "snippet_id (snippets st ! k) = JStr i"
  then show "get_field field (snippets (updateSnippet st i field v res st) ! k) = JStr v"
    by (simp add: snippets_updateSnippet get_set_field)
next
  fix k g
  assume "k < length (snippets st)" "snippet_id (snippets st ! k) = JStr i" "g \<noteq> field"
  then show "get_field g (snippets (updateSnippet st i field v res st) ! k) = get_field g (snippets st ! k)"
    by (simp add: snippets_updateSnippet get_set_field)
next
  fix k
  assume "k < length (snippets st)" "snippet_id (snippets st ! k) \<noteq> JStr i"
  then show "snippets (updateSnippet st i field v res st) ! k = snippets st ! k"
    by (simp add: snippets_updateSnippet)
next
  assume "JStr i \<notin> snippet_id ` set (snippets st)"
  then have "\<forall>x\<in>set (snippets st). snippet_id x \<noteq> JStr i"
    by (metis imageI)
  then have "map (\<lambda>snippet. if snippet_id snippet = JStr i then set_field field (JStr v) snippet else snippet)
       (snippets st) = map (\<lambda>snippet. snippet) (snippets st)"
    by (intro map_cong) simp_all
  then show "snippets (updateSnippet st i field v res st) = snippets st"
    by (simp add: snippets_updateSnippet)
qed

theorem updateSnippet_frame_witness:
  "(0::nat) < length (snippets threeRows) \<and> snippet_id (snippets threeRows ! 0) = JStr ''1''
   \<and> get_field K_song_name (snippets (updateSnippet threeRows ''1'' K_song_name ''Verse'' Resolved threeRows) ! 0)
       = JStr ''Verse''
   \<and> get_field K_notes (snippets (updateSnippet threeRows ''1'' K_song_name ''Verse'' Resolved threeRows) ! 0)
       = JStr ''chords''
   \<and> (1::nat) < length (snippets threeRows) \<and> snippet_id (snippets threeRows ! 1) \<noteq> JStr ''1''
   \<and> snippets (updateSnippet threeRows ''1'' K_song_name ''Verse'' Resolved threeRows) ! 1
       = snippets threeRows ! 1
   \<and> JStr ''9'' \<notin> snippet_id ` set (snippets threeRows)
   \<and> snippets (updateSnippet threeRows ''9'' K_song_name ''Verse'' Resolved threeRows) = snippets threeRows"
proof -
  have h0: "(0::nat) < length (snippets threeRows)" and h1: "(1::nat) < length (snippets threeRows)"
    and i0: "snippet_id (snippets threeRows ! 0) = JStr ''1''"
    and i1: "snippet_id (snippets threeRows ! 1) \<noteq> JStr ''1''"
    and n0: "get_field K_notes (snippets threeRows ! 0) = JStr ''chords''"
    and i9: "JStr ''9'' \<notin> snippet_id ` set (snippets threeRows)"
    by (simp_all add: threeRows_def)
  have k: "K_notes \<noteq> K_song_name" by simp
  note t = updateSnippet_frame [of threeRows "''1''" K_song_name "''Verse''" Resolved]
  from t h0 i0 have 1: "get_field K_song_name
      (snippets (updateSnippet threeRows ''1'' K_song_name ''Verse'' Resolved threeRows) ! 0) = JStr ''Verse''"
    by blast
  from t h0 i0 k have "get_field K_notes
      (snippets (updateSnippet threeRows ''1'' K_song_name ''Verse'' Resolved threeRows) ! 0)
      = get_field K_notes (snippets threeRows ! 0)"
    by blast
  with n0 have 2: "get_field K_notes
      (snippets (updateSnippet threeRows ''1'' K_song_name ''Verse'' Resolved threeRows) ! 0) = JStr ''chords''"
    by simp
  from t h1 i1 have 3: "snippets (updateSnippet threeRows ''1'' K_song_name ''Verse'' Resolved threeRows) ! 1
       = snippets threeRows ! 1"
    by blast
  from updateSnippet_frame [of threeRows "''9''" K_song_name "''Verse''" Resolved] i9
  have 4: "snippets (updateSnippet threeRows ''9'' K_song_name ''Verse'' Resolved threeRows) = snippets threeRows"
    by blast
  from h0 h1 i0 i1 i9 1 2 3 4 show ?thesis by blast
qed

text \<open>
  Claim C7. Setting the kind of a snippet to \<^verbatim>\<open>file\<close> and back to \<^verbatim>\<open>spotify\<close> through
  \<^const>\<open>updateSnippet\<close> leaves the Spotify URL of every snippet as it was, and a snippet
  whose kind was \<^verbatim>\<open>spotify\<close> is as a whole what it was before.
\<close>

theorem kind_switch_keeps_spotify_url:
  "map spotify_url
     (snippets (updateSnippet (updateSnippet st i K_audio_type ''file'' res st) i K_audio_type ''spotify'' res'
                 (updateSnippet st i K_audio_type ''file'' res st)))
     = map spotify_url (snippets st)
   \<and> (\<forall>k<length (snippets st). audio_type (snippets st ! k) = JStr ''spotify'' \<longrightarrow>
        snippets (updateSnippet (updateSnippet st i K_audio_type ''file'' res st) i K_audio_type ''spotify'' res'
                 (updateSnippet st i K_audio_type ''file'' res st)) ! k = snippets st ! k)"
proof -
  let ?st2 = "updateSnippet (updateSnippet st i K_audio_type ''file'' res st) i K_audio_type ''spotify'' res'
                 (updateSnippet st i K_audio_type ''file'' res st)"
  have s2: "snippets ?st2 =
      map (\<lambda>s. if snippet_id s = JStr i then s\<lparr>audio_type := JStr ''spotify''\<rparr> else s) (snippets st)"
    by (simp add: snippets_updateSnippet o_def) 
  have a: "map spotify_url (snippets ?st2) = map spotify_url (snippets st)"
    unfolding s2 by (induction "snippets st") (auto simp: o_def intro: map_idI)
  have b: "\<forall>k<length (snippets st). audio_type (snippets st ! k) = JStr ''spotify'' \<longrightarrow>
        snippets ?st2 ! k = snippets st ! k"
    unfolding s2 by auto
  from a b show ?thesis by blast
qed

theorem kind_switch_keeps_spotify_url_witness:
  "(0::nat) < length (snippets threeRows) \<and> audio_type (snippets threeRows ! 0) = JStr ''spotify''
   \<and> audio_type (snippets (updateSnippet threeRows ''1'' K_audio_type ''file'' Resolved threeRows) ! 0)
       = JStr ''file''
   \<and> snippets
        (updateSnippet (updateSnippet threeRows ''1'' K_audio_type ''file'' Resolved threeRows) ''1''
           K_audio_type ''spotify'' Resolved
           (updateSnippet threeRows ''1'' K_audio_type ''file'' Resolved threeRows)) ! 0
       = snippets threeRows ! 0"
proof -
  have h0: "(0::nat) < length (snippets threeRows)"
    and a0: "audio_type (snippets threeRows ! 0) = JStr ''spotify''"
    by (simp_all add: threeRows_def)
  have f: "audio_type (snippets (updateSnippet threeRows ''1'' K_audio_type ''file'' Resolved threeRows) ! 0)
       = JStr ''file''"
    by code_simp
  from kind_switch_keeps_spotify_url [where st = threeRows and i = "''1''" and res = Resolved and res' = Resolved] h0 a0 f
  show ?thesis by blast
qed

section \<open>Falling back to local storage\<close>

text \<open>
  Claim C1, as stated: after a failed upsert in remote mode the mode is local, local
  storage holds the in-memory collection, and every later operation goes to local storage
  without trying the remote store again. The last part fails: \<^const>\<open>saveSnippet\<close> and
  \<^const>\<open>deleteSnippet\<close> test \<^const>\<open>supabase\<close> only, never \<^const>\<open>useLocalStorage\<close>. From the
  empty collection, a snippet is added and its upsert fails; the next edit of its name is
  sent to the remote store, whose table then holds the row.
\<close>

theorem remote_failure_counterexample:
  "supabase remoteStart \<and> \<not> useLocalStorage remoteStart
   \<and> useLocalStorage afterFailure
   \<and> localStorage afterFailure = Some (snippets afterFailure)
   \<and> remote afterFailure = []
   \<and> remote (updateSnippet afterFailure ''17'' K_song_name ''Riff Idea'' Resolved afterFailure)
       = [\<lparr>snippet_id = JStr ''17'', song_name = JStr ''Riff Idea'', audio_type = JStr ''file'',
           audio_url = JNull, spotify_url = JStr [], soundcloud_url = JStr [],
           start_time = JStr ''0:00'', snippet_notes = JStr [], position = JNum 0\<rparr>]
   \<and> remote (updateSnippet afterFailure ''17'' K_song_name ''Riff Idea'' Resolved afterFailure)
       \<noteq> remote afterFailure"
  by code_simp

text \<open>
  Claim C1, amended: if the remote store is configured, \<^const>\<open>useLocalStorage\<close> is false and
  the upsert of \<^const>\<open>saveSnippet\<close> fails, then afterwards \<^const>\<open>useLocalStorage\<close> is true and
  the in-memory collection is unchanged. The flag has changed, so the effect runs, and it
  writes the current in-memory collection to local storage when that is not empty; after
  \<^const>\<open>addNewSnippet\<close> that is the collection with the new snippet. The flag stays true
  under every later \<^const>\<open>saveSnippet\<close>, \<^const>\<open>deleteSnippet\<close> and run of the effect. With the
  flag true and the remote store configured, a later \<^const>\<open>saveSnippet\<close> or
  \<^const>\<open>deleteSnippet\<close> still goes to the remote store first: when it succeeds the remote
  table is written, and \<^const>\<open>saveSnippet\<close> does not touch local storage.
\<close>

theorem remote_failure_falls_back:
  assumes "supabase r" and "\<not> useLocalStorage st"
  shows "useLocalStorage (saveSnippet r Failed snippet st)
    \<and> useLocalStorage (saveSnippet r Failed snippet st) \<noteq> useLocalStorage st
    \<and> snippets (saveSnippet r Failed snippet st) = snippets st
    \<and> (snippets st \<noteq> [] \<longrightarrow>
         localStorage (persistEffect (saveSnippet r Failed snippet st)) = Some (snippets st))
    \<and> localStorage (persistEffect (addNewSnippet r now Failed st))
        = Some (snippets r @ [newSnippet r now])
    \<and> (useLocalStorage st' \<longrightarrow>
         useLocalStorage (saveSnippet r' res snippet' st')
         \<and> useLocalStorage (deleteSnippet r' i res st')
         \<and> useLocalStorage (persistEffect st'))
    \<and> (useLocalStorage st' \<and> supabase r' \<longrightarrow>
         remote (saveSnippet r' Resolved snippet' st') = upsert snippet' (remote st')
         \<and> localStorage (saveSnippet r' Resolved snippet' st') = localStorage st'
         \<and> remote (deleteSnippet r' i Resolved st')
             = filter (\<lambda>x. snippet_id x \<noteq> JStr i) (remote st'))"
proof -
  have a: "useLocalStorage (saveSnippet r Failed snippet st)"
    using assms(1) by (simp add: saveSnippet_def Let_def)
  have b: "snippets (saveSnippet r Failed snippet st) = snippets st"
    by (rule snippets_saveSnippet)
  have c: "useLocalStorage (saveSnippet r Failed snippet st) \<noteq> useLocalStorage st"
    using a assms(2) by simp
  have d: "snippets st \<noteq> [] \<longrightarrow>
         localStorage (persistEffect (saveSnippet r Failed snippet st)) = Some (snippets st)"
    using a b by (simp add: persistEffect_def)
  have e: "localStorage (persistEffect (addNewSnippet r now Failed st))
        = Some (snippets r @ [newSnippet r now])"
    using assms(1)
    by (simp add: persistEffect_def addNewSnippet_def saveSnippet_def Let_def)
  have f: "useLocalStorage st' \<longrightarrow>
         useLocalStorage (saveSnippet r' res snippet' st')
         \<and> useLocalStorage (deleteSnippet r' i res st')
         \<and> useLocalStorage (persistEffect st')"
    by (cases res)
      (simp_all add: saveSnippet_def deleteSnippet_def persistEffect_def Let_def split: option.split)
  have g: "useLocalStorage st' \<and> supabase r' \<longrightarrow>
         remote (saveSnippet r' Resolved snippet' st') = upsert snippet' (remote st')
         \<and> localStorage (saveSnippet r' Resolved snippet' st') = localStorage st'
         \<and> remote (deleteSnippet r' i Resolved st')
             = filter (\<lambda>x. snippet_id x \<noteq> JStr i) (remote st')"
    by (simp add: saveSnippet_def deleteSnippet_def Let_def split: option.split)
  from a b c d e f g show ?thesis by blast
qed

theorem remote_failure_falls_back_witness:
  "supabase remoteStart \<and> \<not> useLocalStorage remoteStart
   \<and> useLocalStorage (saveSnippet remoteStart Failed (newSnippet remoteStart 17) remoteStart)
   \<and> localStorage (persistEffect (addNewSnippet remoteStart 17 Failed remoteStart))
       = Some [newSnippet remoteStart 17]
   \<and> useLocalStorage afterFailure \<and> supabase afterFailure
   \<and> remote (saveSnippet afterFailure Resolved (newSnippet remoteStart 17) afterFailure)
       = [newSnippet remoteStart 17]
   \<and> supabase threeRows \<and> \<not> useLocalStorage threeRows \<and> snippets threeRows \<noteq> []
   \<and> localStorage (persistEffect (saveSnippet threeRows Failed (newSnippet threeRows 17) threeRows))
       = Some (snippets threeRows)"
proof -
  have h1: "supabase remoteStart" and h2: "\<not> useLocalStorage remoteStart"
    by (simp_all add: remoteStart_def)
  have h3: "useLocalStorage afterFailure" and h4: "supabase afterFailure"
    by (simp_all add: afterFailure_def remoteStart_def persistEffect_def addNewSnippet_def
        saveSnippet_def Let_def)
  have r0: "remote afterFailure = []" and s0: "snippets remoteStart = []"
    by (simp_all add: afterFailure_def remoteStart_def persistEffect_def addNewSnippet_def
        saveSnippet_def Let_def)
  note t = remote_failure_falls_back [OF h1 h2, of "newSnippet remoteStart 17" 17 afterFailure
      afterFailure Resolved "newSnippet remoteStart 17" "''17''"]
  from t have 1: "useLocalStorage (saveSnippet remoteStart Failed (newSnippet remoteStart 17) remoteStart)"
    by blast
  from t s0 have 2: "localStorage (persistEffect (addNewSnippet remoteStart 17 Failed remoteStart))
       = Some [newSnippet remoteStart 17]"
    by simp
  from t h3 h4 have "remote (saveSnippet afterFailure Resolved (newSnippet remoteStart 17) afterFailure)
       = upsert (newSnippet remoteStart 17) (remote afterFailure)"
    by blast
  then have 3: "remote (saveSnippet afterFailure Resolved (newSnippet remoteStart 17) afterFailure)
       = [newSnippet remoteStart 17]"
    by (simp add: r0 upsert_def)
  have h5: "supabase threeRows" and h6: "\<not> useLocalStorage threeRows"
    and h7: "snippets threeRows \<noteq> []"
    by (simp_all add: threeRows_def)
  from remote_failure_falls_back [OF h5 h6, of "newSnippet threeRows 17"] h7
  have 4: "localStorage (persistEffect (saveSnippet threeRows Failed (newSnippet threeRows 17) threeRows))
       = Some (snippets threeRows)"
    by blast
  from h1 h2 h3 h4 h5 h6 h7 1 2 3 4 show ?thesis by blast
qed

section \<open>The title lookup and the song name\<close>

text \<open>
  When the handler runs alone, so that the state still is the one of its render, a name
  that is not empty is kept by the lookup.
\<close>

lemma applyTrackInfo_keeps_rendered_name:
  assumes "k < length (snippets r)" and "truthy (song_name (snippets r ! k))"
  shows "song_name (snippets (applyTrackInfo r i trackInfo res r) ! k) = song_name (snippets r ! k)"
proof (cases trackInfo)
  case None
  then show ?thesis by (simp add: applyTrackInfo_def)
next
  case (Some title)
  with assms show ?thesis
    by (simp add: applyTrackInfo_def Let_def snippets_saveSnippet split: option.split)
qed

text \<open>
  Claim C9. The lookup of a title never overwrites a song name that is not empty. The
  code decides on the song name of the render in which the URL was changed, not on the
  current one: a name typed while the lookup was pending is replaced by the fetched
  title, and the URL that started the lookup goes back to its value before the change.
\<close>

theorem stale_title_overwrites_name:
  "map song_name (snippets untitledRow) = [JStr []]
   \<and> map song_name (snippets nameTyped) = [JStr ''My name'']
   \<and> map song_name (snippets (applyTrackInfo untitledRow ''17'' (Some ''Fetched title'') Resolved nameTyped))
       = [JStr ''Fetched title'']
   \<and> map spotify_url (snippets nameTyped) = [JStr ''https://open.spotify.com/track/abc'']
   \<and> map spotify_url (snippets (applyTrackInfo untitledRow ''17'' (Some ''Fetched title'') Resolved nameTyped))
       = [JStr []]"
  by code_simp

section \<open>One playback at a time\<close>

lemma snippets_togglePlayPause: "snippets (togglePlayPause r i st) = snippets st"
  by (simp add: togglePlayPause_def Let_def split: option.split jsval.split)

lemma snippets_step_distinct:
  assumes "distinct (map snippet_id (snippets st))"
  shows "distinct (map snippet_id (snippets (step e st)))"
proof (cases e)
  case (Toggle i)
  with assms show ?thesis by (simp add: snippets_togglePlayPause)
next
  case (Delete i res)
  with assms show ?thesis by (simp add: snippets_deleteSnippet distinct_map_filter)
next
  case (Ended i)
  with assms show ?thesis by (simp add: handleAudioEnded_def)
qed

lemma length_filter_distinct_key:
  "distinct (map f xs) \<Longrightarrow> length (filter (\<lambda>x. v = f x) xs) \<le> 1"
proof (induction xs)
  case Nil
  then show ?case by simp
next
  case (Cons x xs)
  show ?case
  proof (cases "v = f x")
    case True
    with Cons.prems have "\<forall>y\<in>set xs. v \<noteq> f y" by auto
    then have "filter (\<lambda>x. v = f x) xs = []" by (simp add: filter_empty_conv)
    with True show ?thesis by simp
  next
    case False
    with Cons show ?thesis by simp
  qed
qed

lemma length_reportedPlaying:
  assumes "distinct (map snippet_id (snippets st))"
  shows "length (reportedPlaying st) \<le> 1"
proof (cases "currentlyPlaying st")
  case None
  then show ?thesis by (simp add: reportedPlaying_def)
next
  case (Some i)
  with length_filter_distinct_key [OF assms, of "JStr i"] show ?thesis
    by (simp add: reportedPlaying_def)
qed

lemma audioPlaying_pauseAll: "\<not> audioPlaying (st\<lparr>audioRefs := pauseAll refs\<rparr>) k"
  by (simp add: audioPlaying_def pauseAll_def split: option.split)

lemma audioPlaying_togglePlayPause:
  assumes "audioPlaying (togglePlayPause r i st) k"
  shows "audioPlaying st k \<or> (k = i \<and> (\<forall>j. audioPlaying (togglePlayPause r i st) j \<longrightarrow> j = i))"
proof (cases "audioRefs st i")
  case None
  with assms show ?thesis by (simp add: togglePlayPause_def)
next
  case (Some a)
  note A = this
  show ?thesis
  proof (cases "find (\<lambda>s. snippet_id s = JStr i) (snippets r)")
    case None
    with assms A show ?thesis by (simp add: togglePlayPause_def)
  next
    case (Some snippet)
    show ?thesis
    proof (cases "currentlyPlaying r = Some i")
      case True
      with assms A Some show ?thesis
        by (auto simp: togglePlayPause_def audioPlaying_def split: if_splits)
    next
      case False
      have only: "\<forall>j. audioPlaying (togglePlayPause r i st) j \<longrightarrow> j = i"
        using A Some False
        by (auto simp: togglePlayPause_def audioPlaying_def pauseAll_def Let_def
            split: if_splits option.splits jsval.splits)
      with assms show ?thesis by blast
    qed
  qed
qed

lemma audioPlaying_deleteSnippet:
  "audioPlaying (deleteSnippet r i res st) k \<Longrightarrow> audioPlaying st k"
  by (cases res)
    (auto simp: deleteSnippet_def audioPlaying_def Let_def split: if_splits option.splits)

lemma single_audio_step:
  assumes "\<forall>i j. audioPlaying st i \<and> audioPlaying st j \<longrightarrow> i = j"
  shows "\<forall>i j. audioPlaying (step e st) i \<and> audioPlaying (step e st) j \<longrightarrow> i = j"
proof (cases e)
  case (Toggle k)
  show ?thesis
  proof (intro allI impI)
    fix i j
    assume "audioPlaying (step e st) i \<and> audioPlaying (step e st) j"
    then have i: "audioPlaying (togglePlayPause st k st) i" and j: "audioPlaying (togglePlayPause st k st) j"
      by (simp_all add: Toggle)
    from audioPlaying_togglePlayPause [OF i] audioPlaying_togglePlayPause [OF j] i j assms
    show "i = j" by metis
  qed
next
  case (Delete k res)
  with assms show ?thesis by (auto dest!: audioPlaying_deleteSnippet)
next
  case (Ended k)
  have "\<And>i. audioPlaying (step e st) i \<Longrightarrow> audioPlaying st i"
    by (auto simp: Ended handleAudioEnded_def audioPlaying_def split: if_splits option.splits)
  with assms show ?thesis by blast
qed

text \<open>
  Claim C3, as stated: in every reachable state, under any sequence of play, pause, delete
  and end-of-playback events, at most one snippet is reported as playing. It fails when two
  snippets have the same id, which \<^const>\<open>addNewSnippet\<close> produces when the clock has not
  advanced between two calls: after one click on play both rows are reported as playing.
\<close>

theorem same_clock_ids_both_playing:
  "map snippet_id (snippets twinsUploaded) = [JStr ''17'', JStr ''17'']
   \<and> map song_name (snippets twinsUploaded) = [JStr ''Take One'', JStr ''Take One'']
   \<and> length (reportedPlaying twinsUploaded) = 0
   \<and> \<not> audioPlaying twinsUploaded ''17''
   \<and> audioPlaying (run [Toggle ''17''] twinsUploaded) ''17''
   \<and> length (reportedPlaying (run [Toggle ''17''] twinsUploaded)) = 2
   \<and> \<not> length (reportedPlaying (run [Toggle ''17''] twinsUploaded)) \<le> 1"
  by code_simp

text \<open>
  Claim C3, amended: in every state reached by play, pause, delete and end-of-playback
  events from a state whose snippet ids are distinct and in which at most one audio element
  is playing, at most one snippet is reported as playing and at most one audio element is
  playing.
\<close>

theorem at_most_one_playing:
  assumes "distinct (map snippet_id (snippets st))"
    and "\<forall>i j. audioPlaying st i \<and> audioPlaying st j \<longrightarrow> i = j"
  shows "length (reportedPlaying (run es st)) \<le> 1
         \<and> (\<forall>i j. audioPlaying (run es st) i \<and> audioPlaying (run es st) j \<longrightarrow> i = j)"
  using assms
proof (induction es arbitrary: st)
  case Nil
  from Nil(1) have "length (reportedPlaying st) \<le> 1" by (rule length_reportedPlaying)
  with Nil(2) show ?case by (simp add: run_def)
next
  case (Cons e es)
  have "distinct (map snippet_id (snippets (step e st)))"
    using Cons.prems(1) by (rule snippets_step_distinct)
  moreover have "\<forall>i j. audioPlaying (step e st) i \<and> audioPlaying (step e st) j \<longrightarrow> i = j"
    using Cons.prems(2) by (rule single_audio_step)
  ultimately have "length (reportedPlaying (run es (step e st))) \<le> 1
         \<and> (\<forall>i j. audioPlaying (run es (step e st)) i \<and> audioPlaying (run es (step e st)) j \<longrightarrow> i = j)"
    by (rule Cons.IH)
  then show ?case by (simp add: run_def)
qed

theorem at_most_one_playing_witness:
  "distinct (map snippet_id (snippets threeRows))
   \<and> length (reportedPlaying (run [Toggle ''2'', Toggle ''3'', Ended ''3'', Toggle ''2''] threeRows)) \<le> 1
   \<and> \<not> (audioPlaying (run [Toggle ''2'', Toggle ''3'', Ended ''3'', Toggle ''2''] threeRows) ''2''
        \<and> audioPlaying (run [Toggle ''2'', Toggle ''3'', Ended ''3'', Toggle ''2''] threeRows) ''3'')"
proof -
  have h1: "distinct (map snippet_id (snippets threeRows))"
    by (simp add: threeRows_def)
  have h2: "\<forall>i j. audioPlaying threeRows i \<and> audioPlaying threeRows j \<longrightarrow> i = j"
    by (simp add: threeRows_def audioPlaying_def)
  have ne: "''2'' \<noteq> ''3''" by simp
  from at_most_one_playing [OF h1 h2, of "[Toggle ''2'', Toggle ''3'', Ended ''3'', Toggle ''2'']"] ne h1
  show ?thesis by blast
qed

end
